theory Spec2Isabelle
  imports Main "HOL-Library.Sublist" "HOL-Library.AList"
begin

section \<open>The parsed document\<close>

text \<open>
  \<^verbatim>\<open>extract_test_elements\<close> hands its input to \<^verbatim>\<open>BeautifulSoup(html_content, "html.parser")\<close>
  and from then on only walks the tree the library returns. The library is not part of
  the repository, so the parser is a parameter of the model: a function from the input
  text to a tree or to the exception the constructor raises. The library raises
  \<^verbatim>\<open>ParserRejectedMarkup\<close> when \<^verbatim>\<open>html.parser\<close> refuses the markup (a marked section with an
  unknown keyword, such as \<^verbatim>\<open><![x y]>\<close>), and line 8 has no handler. The part of the
  library's interface that the program calls (\<^verbatim>\<open>find_all\<close>, \<^verbatim>\<open>find\<close>, \<^verbatim>\<open>get\<close>, \<^verbatim>\<open>[]\<close>,
  \<^verbatim>\<open>name\<close>, \<^verbatim>\<open>get_text\<close>) is modelled on the tree.

  A Python \<^verbatim>\<open>str\<close> is modelled as a \<^typ>\<open>string\<close>; a character stands for the code point
  of the same number (the code points below 256).

  A tree has two kinds of page elements: tags, with a name, a dictionary of attributes
  and a list of children, and strings, each of the class the tree builder gave it
  (text, comment, doctype, the contents of a script, ...). With \<^verbatim>\<open>html.parser\<close> the value
  of each attribute read by the program (\<^verbatim>\<open>data-test-id\<close>, \<^verbatim>\<open>type\<close>, \<^verbatim>\<open>aria-label\<close>,
  \<^verbatim>\<open>placeholder\<close>, \<^verbatim>\<open>id\<close>, and \<^verbatim>\<open>for\<close> of a label) is a string; an attribute written
  without a value has the empty string.

  The name of a tag is never empty: \<^verbatim>\<open>html.parser\<close> opens a tag only where \<^verbatim>\<open><\<close> is followed
  by a letter, and the root of the tree is named \<^verbatim>\<open>[document]\<close>. The type of names holds the
  non-empty strings.
\<close>

typedef tag_name = "{s :: string. s \<noteq> []}"
  by (rule exI [of _ "''a''"]) simp

datatype string_class =
  NavigableString | CData | Comment | Declaration | Doctype | ProcessingInstruction
  | Script | Stylesheet | TemplateString | RubyTextString | RubyParenthesisString

datatype tag =
  Tag (name_of_tag: tag_name) (attrs: "string \<rightharpoonup> string") (contents: "page_element list")
  and page_element = Element tag | PageString string_class string

text \<open>\<^verbatim>\<open>tag.name\<close>.\<close>

definition name :: "tag \<Rightarrow> string" where
  "name t = Rep_tag_name (name_of_tag t)"

text \<open>\<^verbatim>\<open>tag.descendants\<close>: every page element below the tag, in document order
  (a tag before its children, children from first to last).\<close>

fun descendants :: "tag \<Rightarrow> page_element list"
  and descendants_of_list :: "page_element list \<Rightarrow> page_element list" where
  "descendants (Tag n a cs) = descendants_of_list cs"
| "descendants_of_list [] = []"
| "descendants_of_list (Element t # rest) = Element t # descendants t @ descendants_of_list rest"
| "descendants_of_list (PageString k s # rest) = PageString k s # descendants_of_list rest"

text \<open>The tags among a list of page elements, in the order of the list.\<close>

fun tags_of :: "page_element list \<Rightarrow> tag list" where
  "tags_of [] = []"
| "tags_of (Element t # rest) = t # tags_of rest"
| "tags_of (PageString k s # rest) = tags_of rest"

text \<open>\<^verbatim>\<open>element.get(key)\<close> returns \<^verbatim>\<open>None\<close> for a missing attribute; \<^verbatim>\<open>element[key]\<close>
  raises \<^verbatim>\<open>KeyError\<close>.\<close>

datatype py_error =
  ParserRejectedMarkup | KeyError string
  | FileNotFoundError | IsADirectoryError | PermissionError | UnicodeDecodeError

definition get :: "tag \<Rightarrow> string \<Rightarrow> string option" where
  "get element key = attrs element key"

definition getitem :: "tag \<Rightarrow> string \<Rightarrow> py_error + string" where
  "getitem element key = (case attrs element key of None \<Rightarrow> Inl (KeyError key) | Some v \<Rightarrow> Inr v)"

text \<open>Truth value of an expression that is \<^verbatim>\<open>None\<close> or a \<^verbatim>\<open>str\<close>: only a non-empty string
  is true.\<close>

definition truthy :: "string option \<Rightarrow> bool" where
  "truthy v = (case v of None \<Rightarrow> False | Some s \<Rightarrow> s \<noteq> [])"

text \<open>\<^verbatim>\<open>soup.find_all(attrs={key: True})\<close>: the tags below \<^verbatim>\<open>soup\<close> that have the
  attribute (\<^verbatim>\<open>True\<close> matches every value that is not \<^verbatim>\<open>None\<close>), in document order.\<close>

definition find_all_with_attr :: "tag \<Rightarrow> string \<Rightarrow> tag list" where
  "find_all_with_attr soup key = filter (\<lambda>t. attrs t key \<noteq> None) (tags_of (descendants soup))"

text \<open>How the library matches an attribute value against a string: a present value
  matches by equality; a missing attribute matches only the string that is false, the
  empty one (the program searches for true strings only, line 38).\<close>

definition matches_string :: "string option \<Rightarrow> string \<Rightarrow> bool" where
  "matches_string markup match_against =
     (case markup of None \<Rightarrow> match_against = [] | Some s \<Rightarrow> s = match_against)"

text \<open>\<^verbatim>\<open>soup.find(tag_name, attrs={key: v})\<close>: the first tag below \<^verbatim>\<open>soup\<close>, in
  document order, with that name and a matching attribute, or \<^verbatim>\<open>None\<close>.\<close>

definition find_tag :: "tag \<Rightarrow> string \<Rightarrow> string \<Rightarrow> string \<Rightarrow> tag option" where
  "find_tag soup tag_name key v =
     List.find (\<lambda>t. name t = tag_name \<and> matches_string (attrs t key) v) (tags_of (descendants soup))"

subsection \<open>Text of a tag\<close>

text \<open>\<^verbatim>\<open>str.strip()\<close> removes leading and trailing whitespace; below 256 the whitespace
  characters of Python are 9 to 13, 28 to 32, 133 and 160.\<close>

definition isspace :: "char \<Rightarrow> bool" where
  "isspace c = (let n = (of_char c :: nat) in
      (9 \<le> n \<and> n \<le> 13) \<or> (28 \<le> n \<and> n \<le> 32) \<or> n = 133 \<or> n = 160)"

definition strip :: "string \<Rightarrow> string" where
  "strip s = rev (dropWhile isspace (rev (dropWhile isspace s)))"

text \<open>The classes of strings a tag's text is made of: those of a plain tag are text and
  CDATA sections (comments, doctypes, declarations and processing instructions are left
  out); a tag whose name has a string container of its own reads that class.\<close>

definition interesting_string_types :: "string \<Rightarrow> string_class list" where
  "interesting_string_types tag_name =
     (if tag_name = ''rt'' then [RubyTextString]
      else if tag_name = ''rp'' then [RubyParenthesisString]
      else if tag_name = ''style'' then [Stylesheet]
      else if tag_name = ''script'' then [Script]
      else if tag_name = ''template'' then [TemplateString]
      else [NavigableString, CData])"

text \<open>The strings below a list of page elements whose class is among \<open>types\<close>.\<close>

fun strings_of :: "string_class list \<Rightarrow> page_element list \<Rightarrow> string list" where
  "strings_of types [] = []"
| "strings_of types (Element t # rest) = strings_of types rest"
| "strings_of types (PageString k s # rest) =
     (if k \<in> set types then s # strings_of types rest else strings_of types rest)"

text \<open>\<^verbatim>\<open>tag._all_strings(strip=True)\<close>: each string is stripped, and dropped when nothing
  is left. \<^verbatim>\<open>tag.get_text(strip=True)\<close> joins what remains with the empty separator.\<close>

definition all_strings_stripped :: "tag \<Rightarrow> string list" where
  "all_strings_stripped t =
     filter (\<lambda>s. s \<noteq> [])
       (map strip (strings_of (interesting_string_types (name t)) (descendants t)))"

definition get_text :: "tag \<Rightarrow> string" where
  "get_text t = concat (all_strings_stripped t)"

section \<open>The extractor\<close>

text \<open>A record under construction is a Python dictionary with string keys and string
  values; the order of insertion is the order of serialization, so it is an association
  list. \<^verbatim>\<open>d[k] = v\<close> replaces the value of a key that is there and appends a new key.\<close>

type_synonym element_info = "(string \<times> string) list"

definition setitem :: "element_info \<Rightarrow> string \<Rightarrow> string \<Rightarrow> element_info" where
  "setitem d k v = AList.update k v d"

text \<open>The pattern \<^verbatim>\<open>x = element.get(a); if x: element_info[k] = x\<close>.\<close>

definition set_if_truthy :: "element_info \<Rightarrow> string \<Rightarrow> string option \<Rightarrow> element_info" where
  "set_if_truthy d k v = (case v of None \<Rightarrow> d | Some s \<Rightarrow> if s \<noteq> [] then setitem d k s else d)"

text \<open>Lines 38 to 43: the label is looked up only for a true \<^verbatim>\<open>id\<close>.\<close>

definition add_label :: "tag \<Rightarrow> tag \<Rightarrow> element_info \<Rightarrow> py_error + element_info" where
  "add_label soup element d =
     (if truthy (get element ''id'') then
        (case getitem element ''id'' of
           Inl err \<Rightarrow> Inl err
         | Inr element_id \<Rightarrow>
             (case find_tag soup ''label'' ''for'' element_id of
                None \<Rightarrow> Inr d
              | Some label \<Rightarrow>
                  (let label_text = get_text label in
                   if label_text \<noteq> [] then Inr (setitem d ''label'' label_text) else Inr d)))
      else Inr d)"

text \<open>Lines 14 to 43: the record of one element whose test identifier passed the filter;
  \<open>d0\<close> to \<open>d5\<close> are the successive states of the dictionary \<^verbatim>\<open>element_info\<close>.\<close>

definition build_element_info :: "tag \<Rightarrow> tag \<Rightarrow> string \<Rightarrow> py_error + element_info" where
  "build_element_info soup element test_id =
     (let d0 = [(''test_id'', test_id)];
          tag = name element;
          d1 = (if tag \<noteq> [] then setitem d0 ''tag'' tag else d0);
          d2 = set_if_truthy d1 ''type'' (get element ''type'');
          text = get_text element;
          d3 = (if text \<noteq> [] then setitem d2 ''text'' text else d2);
          d4 = set_if_truthy d3 ''aria_label'' (get element ''aria-label'');
          d5 = set_if_truthy d4 ''placeholder'' (get element ''placeholder'')
      in add_label soup element d5)"

text \<open>The loop of lines 10 to 45 over the tags found, with the list \<^verbatim>\<open>test_elements\<close> as
  accumulator; an exception ends it. Line 12 is \<^verbatim>\<open>if test_id and test_id.startswith("e2e-")\<close>,
  where \<^verbatim>\<open>None\<close> and the empty string are false.\<close>

fun loop :: "tag \<Rightarrow> tag list \<Rightarrow> element_info list \<Rightarrow> py_error + element_info list" where
  "loop soup [] test_elements = Inr test_elements"
| "loop soup (element # rest) test_elements =
     (case get element ''data-test-id'' of
        None \<Rightarrow> loop soup rest test_elements
      | Some test_id \<Rightarrow>
          if test_id \<noteq> [] \<and> prefix ''e2e-'' test_id then
            (case build_element_info soup element test_id of
               Inl err \<Rightarrow> Inl err
             | Inr d \<Rightarrow> loop soup rest (test_elements @ [d]))
          else loop soup rest test_elements)"

definition extract_records :: "tag \<Rightarrow> py_error + element_info list" where
  "extract_records soup = loop soup (find_all_with_attr soup ''data-test-id'') []"

subsection \<open>Serialization\<close>

text \<open>\<^verbatim>\<open>json.dumps(test_elements, indent=2)\<close> for a list of dictionaries from strings to
  strings. With \<^verbatim>\<open>ensure_ascii\<close> (the default) a string is written between double quotes;
  the backslash, the double quote and the control characters with a short form are
  escaped with a backslash, every other character outside the range from space to tilde
  as \<^verbatim>\<open>\u\<close> and four lower-case hexadecimal digits.\<close>

definition hex_digit :: "nat \<Rightarrow> char" where
  "hex_digit n = ''0123456789abcdef'' ! n"

definition escape_char :: "char \<Rightarrow> string" where
  "escape_char c =
     (let n = (of_char c :: nat) in
      if n = 0x5C then [CHR 0x5C, CHR 0x5C]
      else if n = 0x22 then [CHR 0x5C, CHR 0x22]
      else if n = 0x08 then [CHR 0x5C, CHR ''b'']
      else if n = 0x0C then [CHR 0x5C, CHR ''f'']
      else if n = 0x0A then [CHR 0x5C, CHR ''n'']
      else if n = 0x0D then [CHR 0x5C, CHR ''r'']
      else if n = 0x09 then [CHR 0x5C, CHR ''t'']
      else if 0x20 \<le> n \<and> n \<le> 0x7E then [c]
      else [CHR 0x5C, CHR ''u'', CHR ''0'', CHR ''0'', hex_digit (n div 16), hex_digit (n mod 16)])"

definition encode_basestring_ascii :: "string \<Rightarrow> string" where
  "encode_basestring_ascii s = [CHR 0x22] @ concat (map escape_char s) @ [CHR 0x22]"

text \<open>\<^verbatim>\<open>sep.join(xs)\<close>.\<close>

fun join :: "string \<Rightarrow> string list \<Rightarrow> string" where
  "join sep [] = []"
| "join sep [x] = x"
| "join sep (x # y # ys) = x @ sep @ join sep (y # ys)"

text \<open>A line break followed by the indentation of a nesting level (two spaces each).\<close>

definition newline_indent :: "nat \<Rightarrow> string" where
  "newline_indent level = CHR 0x0A # replicate (2 * level) CHR '' ''"

definition encode_item :: "string \<times> string \<Rightarrow> string" where
  "encode_item kv = encode_basestring_ascii (fst kv) @ '': '' @ encode_basestring_ascii (snd kv)"

definition iterencode_dict :: "element_info \<Rightarrow> nat \<Rightarrow> string" where
  "iterencode_dict dct level =
     (if dct = [] then ''{}''
      else ''{'' @ newline_indent (level + 1)
           @ join ('','' @ newline_indent (level + 1)) (map encode_item dct)
           @ newline_indent level @ ''}'')"

definition iterencode_list :: "element_info list \<Rightarrow> nat \<Rightarrow> string" where
  "iterencode_list lst level =
     (if lst = [] then ''[]''
      else ''['' @ newline_indent (level + 1)
           @ join ('','' @ newline_indent (level + 1)) (map (\<lambda>d. iterencode_dict d (level + 1)) lst)
           @ newline_indent level @ '']'')"

definition json_dumps :: "element_info list \<Rightarrow> string" where
  "json_dumps test_elements = iterencode_list test_elements 0"

text \<open>The function of lines 7 to 46, over the parser: an exception of line 8 leaves the
  function, as one of the loop does.\<close>

definition extract_test_elements ::
  "(string \<Rightarrow> py_error + tag) \<Rightarrow> string \<Rightarrow> py_error + string" where
  "extract_test_elements parser html_content =
     (case parser html_content of
        Inl err \<Rightarrow> Inl err
      | Inr soup \<Rightarrow>
          (case extract_records soup of
             Inl err \<Rightarrow> Inl err
           | Inr test_elements \<Rightarrow> Inr (json_dumps test_elements)))"

section \<open>The command line\<close>

text \<open>Lines 49 to 63. The file system is a map from paths to what is there: a directory,
  or a regular file that the process may or may not read, with the text that \<^verbatim>\<open>read\<close>
  returns for it, or none when its bytes are not UTF-8. \<^verbatim>\<open>os.path.exists\<close> is true for
  every entry; \<^verbatim>\<open>open\<close> and \<^verbatim>\<open>read\<close> raise for a missing path, for a directory, for a file
  without read permission and for bytes that are not UTF-8. A run ends with what it
  printed on standard output and its exit status, or with an exception that nothing
  catches (the interpreter then prints nothing on standard output and exits with a
  status that is not 0).\<close>

datatype fs_entry = Directory | RegularFile (readable: bool) (decoded: "string option")

type_synonym file_system = "string \<rightharpoonup> fs_entry"

definition path_exists :: "file_system \<Rightarrow> string \<Rightarrow> bool" where
  "path_exists fs file_path = (fs file_path \<noteq> None)"

definition read_file :: "file_system \<Rightarrow> string \<Rightarrow> py_error + string" where
  "read_file fs file_path =
     (case fs file_path of
        None \<Rightarrow> Inl FileNotFoundError
      | Some Directory \<Rightarrow> Inl IsADirectoryError
      | Some (RegularFile r content) \<Rightarrow>
          if \<not> r then Inl PermissionError
          else (case content of None \<Rightarrow> Inl UnicodeDecodeError | Some html_content \<Rightarrow> Inr html_content))"

text \<open>\<^verbatim>\<open>print(x)\<close> writes \<open>x\<close> and a line break.\<close>

definition print_line :: "string \<Rightarrow> string" where
  "print_line x = x @ [CHR 0x0A]"

definition usage_message :: string where
  "usage_message = ''Usage: python extract_test_elements.py <path_to_html_file>''"

definition error_message :: "string \<Rightarrow> string" where
  "error_message file_path = ''Error: File '' @ [CHR 0x27] @ file_path @ [CHR 0x27] @ '' does not exist.''"

definition main ::
  "(string \<Rightarrow> py_error + tag) \<Rightarrow> file_system \<Rightarrow> string list \<Rightarrow> py_error + (string \<times> nat)" where
  "main parser fs argv =
     (if length argv < 2 then Inr (print_line usage_message, 1)
      else
        (let file_path = argv ! 1 in
         if \<not> path_exists fs file_path then Inr (print_line (error_message file_path), 1)
         else
           (case read_file fs file_path of
              Inl err \<Rightarrow> Inl err
            | Inr html_content \<Rightarrow>
                (case extract_test_elements parser html_content of
                   Inl err \<Rightarrow> Inl err
                 | Inr out \<Rightarrow> Inr (print_line out, 0)))))"

section \<open>Notions of the specification\<close>

text \<open>The elements of a document, in document order.\<close>

definition elements :: "tag \<Rightarrow> tag list" where
  "elements soup = tags_of (descendants soup)"

text \<open>An element qualifies when it carries the attribute \<^verbatim>\<open>data-test-id\<close> with a value that
  begins with \<^verbatim>\<open>e2e-\<close>.\<close>

definition carries_e2e_test_id :: "tag \<Rightarrow> bool" where
  "carries_e2e_test_id t =
     (case attrs t ''data-test-id'' of None \<Rightarrow> False | Some v \<Rightarrow> prefix ''e2e-'' v)"

definition qualifying :: "tag \<Rightarrow> tag list" where
  "qualifying soup = filter carries_e2e_test_id (elements soup)"

text \<open>The presence rule of the record's fields: a source value that is missing or empty
  gives no field.\<close>

definition nonempty :: "string option \<Rightarrow> string option" where
  "nonempty v = (case v of None \<Rightarrow> None | Some s \<Rightarrow> if s = [] then None else Some s)"

text \<open>The first \<^verbatim>\<open>label\<close> element of the document, in document order, whose \<^verbatim>\<open>for\<close>
  attribute equals \<open>x\<close>.\<close>

definition first_label_for :: "tag \<Rightarrow> string \<Rightarrow> tag option" where
  "first_label_for soup x =
     List.find (\<lambda>t. name t = ''label'' \<and> attrs t ''for'' = Some x) (elements soup)"

text \<open>The text of a tag before any stripping (\<^verbatim>\<open>get_text()\<close>), and the stripped text of a
  tag in the words of the specification: its text content with the whitespace at both
  ends removed.\<close>

definition text_content :: "tag \<Rightarrow> string" where
  "text_content t = concat (strings_of (interesting_string_types (name t)) (descendants t))"

definition stripped_text :: "tag \<Rightarrow> string" where
  "stripped_text t = strip (text_content t)"

text \<open>The source value of the field \<^verbatim>\<open>label\<close> in the words of the specification (the table
  of section 3 and step 6 of the algorithm): for an element with an \<^verbatim>\<open>id\<close> attribute, the
  stripped text of the first label whose \<^verbatim>\<open>for\<close> equals that id.\<close>

definition spec_label_source :: "tag \<Rightarrow> tag \<Rightarrow> string option" where
  "spec_label_source soup element =
     (case attrs element ''id'' of
        None \<Rightarrow> None
      | Some x \<Rightarrow> map_option stripped_text (first_label_for soup x))"

text \<open>The order of the fields in the specification.\<close>

definition field_order :: "string list" where
  "field_order = [''test_id'', ''tag'', ''type'', ''text'', ''aria_label'', ''placeholder'', ''label'']"

text \<open>The layout of the serialized text, written from the fields: a record is a line with
  an opening brace, one line for each field it has, taken in the order of \<open>field_order\<close>,
  with four spaces, the key between double quotes, a colon, a space and the encoded
  value, and a line with the closing brace; lines of fields, and records, are separated
  by a comma at the end of the line.\<close>

definition separated :: "string \<Rightarrow> string list \<Rightarrow> string" where
  "separated sep xs = (case xs of [] \<Rightarrow> [] | x # rest \<Rightarrow> x @ concat (map (\<lambda>y. sep @ y) rest))"

definition field_line :: "element_info \<Rightarrow> string \<Rightarrow> string option" where
  "field_line r k =
     map_option (\<lambda>v. ''    '' @ [CHR 0x22] @ k @ [CHR 0x22] @ '': '' @ encode_basestring_ascii v)
       (map_of r k)"

definition record_text :: "element_info \<Rightarrow> string" where
  "record_text r =
     ''  {'' @ [CHR 0x0A]
     @ separated ('','' @ [CHR 0x0A]) (List.map_filter (field_line r) field_order)
     @ [CHR 0x0A] @ ''  }''"

definition output_text :: "element_info list \<Rightarrow> string" where
  "output_text rs =
     (if rs = [] then ''[]''
      else ''['' @ [CHR 0x0A] @ separated ('','' @ [CHR 0x0A]) (map record_text rs)
           @ [CHR 0x0A] @ '']'')"

section \<open>The record of an element, as a table\<close>

text \<open>What lines 38 to 43 insert under \<^verbatim>\<open>label\<close>: nothing for an element whose \<^verbatim>\<open>id\<close> is
  missing or empty (the guard of line 38), and otherwise \<^verbatim>\<open>get_text(strip=True)\<close> of the
  first label for the id, when there is one.\<close>

definition label_value :: "tag \<Rightarrow> tag \<Rightarrow> string option" where
  "label_value soup element =
     (case attrs element ''id'' of
        None \<Rightarrow> None
      | Some x \<Rightarrow> if x = [] then None else map_option get_text (first_label_for soup x))"

text \<open>The values lines 17 to 43 compute for the fields after \<^verbatim>\<open>test_id\<close>, in the order of
  the insertions; \<open>present\<close> keeps those that are non-empty strings, as the tests of
  lines 18, 22, 26, 30, 34 and 42 do.\<close>

definition field_sources :: "tag \<Rightarrow> tag \<Rightarrow> (string \<times> string option) list" where
  "field_sources soup element =
     [(''tag'', Some (name element)),
      (''type'', attrs element ''type''),
      (''text'', Some (get_text element)),
      (''aria_label'', attrs element ''aria-label''),
      (''placeholder'', attrs element ''placeholder''),
      (''label'', label_value soup element)]"

fun present :: "(string \<times> string option) list \<Rightarrow> element_info" where
  "present [] = []"
| "present ((k, None) # rest) = present rest"
| "present ((k, Some s) # rest) = (if s = [] then present rest else (k, s) # present rest)"

definition record_of :: "tag \<Rightarrow> tag \<Rightarrow> element_info" where
  "record_of soup element =
     (case attrs element ''data-test-id'' of
        None \<Rightarrow> []
      | Some v \<Rightarrow> (''test_id'', v) # present (field_sources soup element))"

section \<open>Example documents\<close>

text \<open>The root of a parsed document is a tag of its own, named \<^verbatim>\<open>[document]\<close>.\<close>

definition document :: "page_element list \<Rightarrow> tag" where
  "document cs = Tag (Abs_tag_name ''[document]'') Map.empty cs"

text \<open>A \<^verbatim>\<open>div\<close> without the attribute, a \<^verbatim>\<open>p\<close> with an empty value, a \<^verbatim>\<open>span\<close> marked
  \<^verbatim>\<open>unit-foo\<close> and a \<^verbatim>\<open>span\<close> marked \<^verbatim>\<open>e2e-x\<close>.\<close>

definition mixed_span :: tag where
  "mixed_span = Tag (Abs_tag_name ''span'') [''data-test-id'' \<mapsto> ''e2e-x''] []"

definition mixed_doc :: tag where
  "mixed_doc = document
     [Element (Tag (Abs_tag_name ''div'') [''aria-label'' \<mapsto> ''close''] []),
      Element (Tag (Abs_tag_name ''p'') [''data-test-id'' \<mapsto> ''''] []),
      Element (Tag (Abs_tag_name ''span'') [''data-test-id'' \<mapsto> ''unit-foo'']
        [PageString NavigableString ''hi'']),
      Element mixed_span]"

text \<open>A button with an empty \<^verbatim>\<open>type\<close>, an empty \<^verbatim>\<open>aria-label\<close>, a placeholder, and blank
  text around a comment.\<close>

definition sparse_button :: tag where
  "sparse_button = Tag (Abs_tag_name ''button'')
     [''data-test-id'' \<mapsto> ''e2e-b'', ''type'' \<mapsto> '''', ''aria-label'' \<mapsto> '''', ''placeholder'' \<mapsto> ''p'']
     [PageString NavigableString ''  '', PageString Comment ''note'']"

definition sparse_doc :: tag where
  "sparse_doc = document [Element sparse_button]"

text \<open>\<^verbatim>\<open><button data-test-id="e2e-submit" type="submit">Send</button>\<close>.\<close>

definition button_doc :: tag where
  "button_doc = document
     [Element (Tag (Abs_tag_name ''button'') [''data-test-id'' \<mapsto> ''e2e-submit'', ''type'' \<mapsto> ''submit'']
        [PageString NavigableString ''Send''])]"

text \<open>An input with the id \<^verbatim>\<open>email\<close>, followed by two labels for it.\<close>

definition email_input :: tag where
  "email_input = Tag (Abs_tag_name ''input'')
     [''data-test-id'' \<mapsto> ''e2e-email'', ''id'' \<mapsto> ''email'', ''placeholder'' \<mapsto> ''you@x.com''] []"

definition email_doc :: tag where
  "email_doc = document
     [Element email_input,
      Element (Tag (Abs_tag_name ''label'') [''for'' \<mapsto> ''email''] [PageString NavigableString '' Email '']),
      Element (Tag (Abs_tag_name ''label'') [''for'' \<mapsto> ''email''] [PageString NavigableString ''Other''])]"

text \<open>\<^verbatim>\<open><input data-test-id="e2e-a" id=""><label for="">Name</label>\<close>.\<close>

definition empty_id_input :: tag where
  "empty_id_input = Tag (Abs_tag_name ''input'') [''data-test-id'' \<mapsto> ''e2e-a'', ''id'' \<mapsto> ''''] []"

definition empty_for_label :: tag where
  "empty_for_label = Tag (Abs_tag_name ''label'') [''for'' \<mapsto> ''''] [PageString NavigableString ''Name'']"

definition empty_id_doc :: tag where
  "empty_id_doc = document [Element empty_id_input, Element empty_for_label]"

text \<open>\<^verbatim>\<open><input data-test-id="e2e-n" id="n"><label for="n"> First <b> Name </b></label>\<close>: the
  label holds a string and a \<^verbatim>\<open>b\<close> element with a string, each with blanks around it.\<close>

definition nested_input :: tag where
  "nested_input = Tag (Abs_tag_name ''input'') [''data-test-id'' \<mapsto> ''e2e-n'', ''id'' \<mapsto> ''n''] []"

definition nested_label :: tag where
  "nested_label = Tag (Abs_tag_name ''label'') [''for'' \<mapsto> ''n'']
     [PageString NavigableString '' First '',
      Element (Tag (Abs_tag_name ''b'') Map.empty [PageString NavigableString '' Name ''])]"

definition nested_doc :: tag where
  "nested_doc = document [Element nested_input, Element nested_label]"

text \<open>A marked \<^verbatim>\<open>div\<close> around a marked \<^verbatim>\<open>span\<close>, then a \<^verbatim>\<open>span\<close> marked for unit tests and
  a third with the test identifier of the first \<^verbatim>\<open>span\<close>.\<close>

definition dup_span :: tag where
  "dup_span = Tag (Abs_tag_name ''span'') [''data-test-id'' \<mapsto> ''e2e-dup''] []"

definition dup_doc :: tag where
  "dup_doc = document
     [Element (Tag (Abs_tag_name ''div'') [''data-test-id'' \<mapsto> ''e2e-outer''] [Element dup_span]),
      Element (Tag (Abs_tag_name ''span'') [''data-test-id'' \<mapsto> ''unit-foo''] []),
      Element dup_span]"

text \<open>\<^verbatim>\<open><span data-test-id=unit-foo>hi</span>\<close> and \<^verbatim>\<open><b data-test-id=e2e-x>hi</b>\<close>.\<close>

definition unit_doc :: tag where
  "unit_doc = document
     [Element (Tag (Abs_tag_name ''span'') [''data-test-id'' \<mapsto> ''unit-foo'']
        [PageString NavigableString ''hi''])]"

definition bold_doc :: tag where
  "bold_doc = document
     [Element (Tag (Abs_tag_name ''b'') [''data-test-id'' \<mapsto> ''e2e-x''] [PageString NavigableString ''hi''])]"

text \<open>The parser at the texts the examples use: the empty text; the two documents above;
  \<^verbatim>\<open><b data-test-id=e2e-x>hi\<close>, cut off before the closing tag, which the library closes
  at the end of the input; and two marked sections with an unknown keyword, \<^verbatim>\<open><![x y]>\<close>
  and \<^verbatim>\<open><![a]]>\<close>, for which \<^verbatim>\<open>html.parser\<close> fails an assertion and the library raises
  \<^verbatim>\<open>ParserRejectedMarkup\<close>. No theorem below applies it to another text.\<close>

definition example_parser :: "string \<Rightarrow> py_error + tag" where
  "example_parser html_content =
     (if html_content = ''<![x y]>'' then Inl ParserRejectedMarkup
      else if html_content = ''<![a]]>'' then Inl ParserRejectedMarkup
      else if html_content = ''<b data-test-id=e2e-x>hi</b>'' then Inr bold_doc
      else if html_content = ''<b data-test-id=e2e-x>hi'' then Inr bold_doc
      else if html_content = ''<span data-test-id=unit-foo>hi</span>'' then Inr unit_doc
      else Inr (document []))"

text \<open>A file system with a page, a page the parser rejects, a directory, a file the
  process may not read and a file that is not UTF-8.\<close>

definition example_fs :: file_system where
  "example_fs =
     [''page.html'' \<mapsto> RegularFile True (Some ''<b data-test-id=e2e-x>hi</b>''),
      ''section.html'' \<mapsto> RegularFile True (Some ''<![a]]>''),
      ''/tmp'' \<mapsto> Directory,
      ''secret.html'' \<mapsto> RegularFile False (Some ''<p>hi</p>''),
      ''logo.png'' \<mapsto> RegularFile True None]"

section \<open>Names of tags\<close>

lemma name_Tag: "s \<noteq> [] \<Longrightarrow> name (Tag (Abs_tag_name s) a cs) = s"
  by (simp add: name_def Abs_tag_name_inverse)

lemma name_nonempty: "name t \<noteq> []"
  using Rep_tag_name [of "name_of_tag t"] by (simp add: name_def)

text \<open>The definitions a concrete run unfolds.\<close>

lemmas run_defs = document_def elements_def qualifying_def carries_e2e_test_id_def
  extract_records_def find_all_with_attr_def get_def getitem_def build_element_info_def
  set_if_truthy_def setitem_def get_text_def all_strings_stripped_def
  interesting_string_types_def strip_def isspace_def add_label_def truthy_def
  find_tag_def matches_string_def first_label_for_def nonempty_def text_content_def
  stripped_text_def name_Tag

section \<open>The loop, characterised\<close>

lemma find_tag_label: "x \<noteq> [] \<Longrightarrow> find_tag soup ''label'' ''for'' x = first_label_for soup x"
proof -
  assume x: "x \<noteq> []"
  have "matches_string a x = (a = Some x)" for a
    using x by (cases a) (auto simp: matches_string_def)
  then show ?thesis
    by (simp add: find_tag_def first_label_for_def elements_def)
qed

lemma add_label_eq:
  "add_label soup element d =
     Inr (case label_value soup element of
            None \<Rightarrow> d
          | Some t \<Rightarrow> if t = [] then d else setitem d ''label'' t)"
  by (auto simp: add_label_def label_value_def truthy_def get_def getitem_def find_tag_label Let_def
           split: option.splits)

lemma setitem_fresh: "k \<notin> fst ` set d \<Longrightarrow> setitem d k v = d @ [(k, v)]"
  unfolding setitem_def by (induction d) auto

lemma present_append: "present (xs @ ys) = present xs @ present ys"
  by (induction xs rule: present.induct) auto

lemma set_if_truthy_fresh:
  "k \<notin> fst ` set d \<Longrightarrow> set_if_truthy d k v = d @ present [(k, v)]"
  by (cases v) (simp_all add: set_if_truthy_def setitem_fresh)

text \<open>The record the code builds by successive insertions is the table, filtered.\<close>

lemma build_element_info_eq:
  "build_element_info soup element v = Inr ((''test_id'', v) # present (field_sources soup element))"
proof -
  define d1 where "d1 = (''test_id'', v) # present [(''tag'', Some (name element))]"
  define d2 where "d2 = d1 @ present [(''type'', attrs element ''type'')]"
  define d3 where "d3 = d2 @ present [(''text'', Some (get_text element))]"
  define d4 where "d4 = d3 @ present [(''aria_label'', attrs element ''aria-label'')]"
  define d5 where "d5 = d4 @ present [(''placeholder'', attrs element ''placeholder'')]"
  define d6 where "d6 = d5 @ present [(''label'', label_value soup element)]"
  have k1: "fst ` set d1 \<subseteq> {''test_id'', ''tag''}"
    by (auto simp: d1_def split: if_splits)
  have k2: "fst ` set d2 \<subseteq> {''test_id'', ''tag'', ''type''}"
    using k1 by (cases "attrs element ''type''") (auto simp: d2_def split: if_splits)
  have k3: "fst ` set d3 \<subseteq> {''test_id'', ''tag'', ''type'', ''text''}"
    using k2 by (auto simp: d3_def split: if_splits)
  have k4: "fst ` set d4 \<subseteq> {''test_id'', ''tag'', ''type'', ''text'', ''aria_label''}"
    using k3 by (cases "attrs element ''aria-label''") (auto simp: d4_def split: if_splits)
  have k5: "fst ` set d5 \<subseteq> {''test_id'', ''tag'', ''type'', ''text'', ''aria_label'', ''placeholder''}"
    using k4 by (cases "attrs element ''placeholder''") (auto simp: d5_def split: if_splits)
  have s1: "(if name element \<noteq> [] then setitem [(''test_id'', v)] ''tag'' (name element)
             else [(''test_id'', v)]) = d1"
    by (simp add: d1_def setitem_def)
  have s2: "set_if_truthy d1 ''type'' (get element ''type'') = d2"
    unfolding d2_def get_def using k1 by (intro set_if_truthy_fresh) auto
  have s3: "(if get_text element \<noteq> [] then setitem d2 ''text'' (get_text element) else d2) = d3"
  proof -
    have "''text'' \<notin> fst ` set d2" using k2 by auto
    then show ?thesis by (simp add: d3_def setitem_fresh)
  qed
  have s4: "set_if_truthy d3 ''aria_label'' (get element ''aria-label'') = d4"
    unfolding d4_def get_def using k3 by (intro set_if_truthy_fresh) auto
  have s5: "set_if_truthy d4 ''placeholder'' (get element ''placeholder'') = d5"
    unfolding d5_def get_def using k4 by (intro set_if_truthy_fresh) auto
  have s6: "add_label soup element d5 = Inr d6"
  proof -
    have "''label'' \<notin> fst ` set d5" using k5 by auto
    then show ?thesis
      by (cases "label_value soup element") (simp_all add: d6_def add_label_eq setitem_fresh)
  qed
  have "build_element_info soup element v = Inr d6"
    by (simp only: build_element_info_def Let_def s1 s2 s3 s4 s5 s6)
  moreover have "d6 = (''test_id'', v) # present (field_sources soup element)"
    unfolding d6_def d5_def d4_def d3_def d2_def d1_def field_sources_def
    by (simp add: present_append [symmetric] del: present.simps)
  ultimately show ?thesis by simp
qed

lemma loop_eq:
  "loop soup ts acc = Inr (acc @ map (record_of soup) (filter carries_e2e_test_id ts))"
proof (induction ts arbitrary: acc)
  case Nil
  show ?case by simp
next
  case (Cons t ts)
  show ?case
  proof (cases "attrs t ''data-test-id''")
    case None
    then show ?thesis by (simp add: Cons.IH get_def carries_e2e_test_id_def)
  next
    case (Some v)
    have ne: "prefix ''e2e-'' v \<Longrightarrow> v \<noteq> []" by auto
    show ?thesis
      using Some ne
      by (simp add: Cons.IH get_def carries_e2e_test_id_def build_element_info_eq record_of_def)
  qed
qed

lemma carries_has_attr: "carries_e2e_test_id t \<Longrightarrow> attrs t ''data-test-id'' \<noteq> None"
  by (auto simp: carries_e2e_test_id_def split: option.splits)

lemma filter_find_all:
  "filter carries_e2e_test_id (find_all_with_attr soup ''data-test-id'') = qualifying soup"
proof -
  have "(\<lambda>t. attrs t ''data-test-id'' \<noteq> None \<and> carries_e2e_test_id t) = carries_e2e_test_id"
    using carries_has_attr by auto
  then show ?thesis
    by (simp add: find_all_with_attr_def qualifying_def elements_def)
qed

lemma extract_records_eq:
  "extract_records soup = Inr (map (record_of soup) (qualifying soup))"
  by (simp add: extract_records_def loop_eq filter_find_all)

section \<open>Fields of a record\<close>

lemma map_of_present:
  "distinct (map fst xs) \<Longrightarrow>
   map_of (present xs) k = (case map_of xs k of None \<Rightarrow> None | Some v \<Rightarrow> nonempty v)"
proof (induction xs rule: present.induct)
  case 1
  show ?case by simp
next
  case (2 k' rest)
  then have "k' \<notin> fst ` set rest" by simp
  then have "map_of rest k' = None" by (simp add: map_of_eq_None_iff)
  with 2 show ?case by (auto simp: nonempty_def)
next
  case (3 k' s rest)
  then have "k' \<notin> fst ` set rest" by simp
  then have "map_of rest k' = None" by (simp add: map_of_eq_None_iff)
  with 3 show ?case by (auto simp: nonempty_def)
qed

lemma values_present: "(k, v) \<in> set (present xs) \<Longrightarrow> v \<noteq> []"
  by (induction xs rule: present.induct) (auto split: if_splits)

lemma keys_present_subset: "fst ` set (present xs) \<subseteq> fst ` set xs"
  by (induction xs rule: present.induct) auto

lemma keys_present_order:
  "distinct (map fst xs) \<Longrightarrow>
   map fst (present xs) = filter (\<lambda>k. k \<in> fst ` set (present xs)) (map fst xs)"
proof (induction xs rule: present.induct)
  case 1
  show ?case by simp
next
  case (2 k rest)
  then have "k \<notin> fst ` set (present rest)"
    using keys_present_subset [of rest] by auto
  with 2 show ?case by simp
next
  case (3 k s rest)
  then have k: "k \<notin> fst ` set rest" by simp
  then have k': "k \<notin> fst ` set (present rest)"
    using keys_present_subset [of rest] by auto
  have "filter (\<lambda>x. x = k \<or> x \<in> fst ` set (present rest)) (map fst rest)
      = filter (\<lambda>x. x \<in> fst ` set (present rest)) (map fst rest)"
    using k by (intro filter_cong) auto
  with 3 k' show ?case by simp
qed

lemma strip_eq_Nil: "strip s = [] \<longleftrightarrow> (\<forall>c\<in>set s. isspace c)"
proof
  assume "strip s = []"
  then have "dropWhile isspace (rev (dropWhile isspace s)) = []"
    by (simp add: strip_def)
  then have all: "\<forall>c\<in>set (dropWhile isspace s). isspace c"
    by (simp add: dropWhile_eq_Nil_conv)
  have "dropWhile isspace s = []"
  proof (rule ccontr)
    assume ne: "dropWhile isspace s \<noteq> []"
    then have "\<not> isspace (hd (dropWhile isspace s))" by (rule hd_dropWhile)
    moreover have "hd (dropWhile isspace s) \<in> set (dropWhile isspace s)" using ne by simp
    ultimately show False using all by blast
  qed
  then show "\<forall>c\<in>set s. isspace c" by (simp only: dropWhile_eq_Nil_conv)
next
  assume "\<forall>c\<in>set s. isspace c"
  then have d: "dropWhile isspace s = []" by (simp add: dropWhile_eq_Nil_conv)
  show "strip s = []" unfolding strip_def d by simp
qed

lemma get_text_eq_Nil: "get_text t = [] \<longleftrightarrow> strip (text_content t) = []"
  by (auto simp: get_text_def all_strings_stripped_def text_content_def strip_eq_Nil)

lemma distinct_field_sources: "distinct (map fst (field_sources soup e))"
  by (simp add: field_sources_def)

lemma map_of_record_of:
  assumes "attrs e ''data-test-id'' = Some v"
  shows "map_of (record_of soup e) k =
     (if k = ''test_id'' then Some v
      else case map_of (field_sources soup e) k of None \<Rightarrow> None | Some s \<Rightarrow> nonempty s)"
  using assms by (simp add: record_of_def map_of_present distinct_field_sources)

lemma values_record_of: "(k, v) \<in> set (record_of soup e) \<Longrightarrow> carries_e2e_test_id e \<Longrightarrow> v \<noteq> []"
  by (auto simp: record_of_def carries_e2e_test_id_def split: option.splits dest: values_present)

lemma keys_record_of:
  assumes "attrs e ''data-test-id'' = Some v"
  shows "map fst (record_of soup e) =
         filter (\<lambda>k. k \<in> fst ` set (record_of soup e)) field_order"
proof -
  let ?fs = "field_sources soup e"
  have r: "record_of soup e = (''test_id'', v) # present ?fs"
    using assms by (simp add: record_of_def)
  have fo: "field_order = ''test_id'' # map fst ?fs"
    by (simp add: field_order_def field_sources_def)
  have nt: "\<forall>k\<in>set (map fst ?fs). k \<noteq> ''test_id''"
    by (simp add: field_sources_def)
  have "filter (\<lambda>k. k = ''test_id'' \<or> k \<in> fst ` set (present ?fs)) (map fst ?fs)
      = filter (\<lambda>k. k \<in> fst ` set (present ?fs)) (map fst ?fs)"
    using nt by (intro filter_cong) auto
  then have "map fst (present ?fs) =
      filter (\<lambda>k. k = ''test_id'' \<or> k \<in> fst ` set (present ?fs)) (map fst ?fs)"
    using keys_present_order [OF distinct_field_sources, of soup e] by simp
  then show ?thesis
    unfolding r fo by simp
qed

lemma records_rel:
  assumes "\<And>e. e \<in> set (qualifying soup) \<Longrightarrow> P e (record_of soup e)"
  shows "\<exists>rs. extract_records soup = Inr rs \<and> list_all2 P (qualifying soup) rs"
proof -
  have "list_all2 P (qualifying soup) (map (record_of soup) (qualifying soup))"
    unfolding list_all2_map2 using assms by (simp add: list_all2_same)
  then show ?thesis by (auto simp: extract_records_eq)
qed

section \<open>The serialized text\<close>

lemma join_Cons: "join sep (x # rest) = x @ concat (map (\<lambda>y. sep @ y) rest)"
  by (induction rest arbitrary: x) simp_all

lemma join_separated:
  "xs \<noteq> [] \<Longrightarrow> pre @ join (sep @ pre) xs = separated sep (map (\<lambda>x. pre @ x) xs)"
  by (cases xs) (simp_all add: join_Cons separated_def comp_def)

lemma escape_char_plain:
  "32 \<le> (of_char c :: nat) \<Longrightarrow> of_char c \<le> (126::nat) \<Longrightarrow> of_char c \<noteq> (92::nat) \<Longrightarrow>
   of_char c \<noteq> (34::nat) \<Longrightarrow> escape_char c = [c]"
  by (simp add: escape_char_def Let_def)

lemma encode_key:
  "k \<in> set field_order \<Longrightarrow> encode_basestring_ascii k = [CHR 0x22] @ k @ [CHR 0x22]"
  by (auto simp: field_order_def encode_basestring_ascii_def escape_char_plain)

lemma map_by_keys:
  assumes d: "distinct (map fst r)"
    and k: "map fst r = filter (\<lambda>k. map_of r k \<noteq> None) ks"
  shows "map f r = List.map_filter (\<lambda>k. map_option (\<lambda>v. f (k, v)) (map_of r k)) ks"
proof -
  define g where "g = (\<lambda>k. map_option (\<lambda>v. f (k, v)) (map_of r k))"
  have gn: "(\<lambda>k. g k \<noteq> None) = (\<lambda>k. map_of r k \<noteq> None)"
    by (simp add: fun_eq_iff g_def)
  have pick: "the (g (fst kv)) = f kv" if "kv \<in> set r" for kv
  proof -
    from that have "(fst kv, snd kv) \<in> set r" by simp
    with d have "map_of r (fst kv) = Some (snd kv)"
      by (rule map_of_is_SomeI)
    then show ?thesis by (simp add: g_def)
  qed
  have "List.map_filter g ks = map (the \<circ> g) (filter (\<lambda>k. g k \<noteq> None) ks)"
    by (simp only: map_filter_def)
  also have "filter (\<lambda>k. g k \<noteq> None) ks = map fst r"
    unfolding gn by (rule k [symmetric])
  also have "map (the \<circ> g) (map fst r) = map (\<lambda>kv. the (g (fst kv))) r"
    by (simp only: map_map comp_def)
  also have "\<dots> = map f r"
    by (rule map_cong [OF refl]) (rule pick)
  finally show ?thesis unfolding g_def by (rule sym)
qed

lemma record_of_keys:
  assumes v: "attrs e ''data-test-id'' = Some v"
  shows "map fst (record_of soup e) = filter (\<lambda>k. map_of (record_of soup e) k \<noteq> None) field_order"
    and "distinct (map fst (record_of soup e))"
proof -
  have "(map_of (record_of soup e) k \<noteq> None) = (k \<in> fst ` set (record_of soup e))" for k
    by (simp only: map_of_eq_None_iff not_not)
  then have eq: "(\<lambda>k. map_of (record_of soup e) k \<noteq> None) = (\<lambda>k. k \<in> fst ` set (record_of soup e))"
    by (rule ext)
  show k: "map fst (record_of soup e) = filter (\<lambda>k. map_of (record_of soup e) k \<noteq> None) field_order"
    unfolding eq by (rule keys_record_of [OF v])
  have "distinct field_order" by (simp add: field_order_def)
  then have "distinct (filter (\<lambda>k. map_of (record_of soup e) k \<noteq> None) field_order)"
    by (rule distinct_filter)
  then show "distinct (map fst (record_of soup e))" by (subst k)
qed

lemma record_of_text:
  assumes v: "attrs e ''data-test-id'' = Some v"
  shows "''  '' @ iterencode_dict (record_of soup e) 1 = record_text (record_of soup e)"
proof -
  let ?r = "record_of soup e"
  let ?f = "\<lambda>kv. ''    '' @ [CHR 0x22] @ fst kv @ [CHR 0x22] @ '': '' @ encode_basestring_ascii (snd kv)"
  note ks = record_of_keys [OF v, of soup]
  have ne: "?r \<noteq> []" using v by (simp add: record_of_def)
  have sub: "fst kv \<in> set field_order" if "kv \<in> set ?r" for kv
  proof -
    from that have "fst kv \<in> set (map fst ?r)" by simp
    then show ?thesis by (subst (asm) ks(1)) simp
  qed
  have "map (\<lambda>x. ''    '' @ x) (map encode_item ?r) = map ?f ?r"
    by (simp add: encode_item_def encode_key [OF sub])
  also have "\<dots> = List.map_filter (field_line ?r) field_order"
  proof -
    have "field_line ?r = (\<lambda>k. map_option (\<lambda>v. ?f (k, v)) (map_of ?r k))"
      by (simp add: fun_eq_iff field_line_def)
    then show ?thesis
      using map_by_keys [OF ks(2) ks(1), of ?f] by (simp only:)
  qed
  finally have items: "map (\<lambda>x. ''    '' @ x) (map encode_item ?r)
      = List.map_filter (field_line ?r) field_order" .
  have nl: "newline_indent (1 + 1) = [CHR 0x0A] @ ''    ''" "newline_indent 1 = [CHR 0x0A] @ ''  ''"
    by (simp_all add: newline_indent_def numeral_eq_Suc)
  have m: "map encode_item ?r \<noteq> []" using ne by simp
  have "iterencode_dict ?r 1 =
      ''{'' @ newline_indent (1 + 1) @ join ('','' @ newline_indent (1 + 1)) (map encode_item ?r)
      @ newline_indent 1 @ ''}''"
    using ne by (simp only: iterencode_dict_def if_False)
  then have "iterencode_dict ?r 1 =
      ''{'' @ [CHR 0x0A] @ (''    '' @ join (('','' @ [CHR 0x0A]) @ ''    '') (map encode_item ?r))
      @ [CHR 0x0A] @ ''  }''"
    unfolding nl by (simp only: append_assoc append_Cons append_Nil)
  also have "''    '' @ join (('','' @ [CHR 0x0A]) @ ''    '') (map encode_item ?r)
      = separated ('','' @ [CHR 0x0A]) (List.map_filter (field_line ?r) field_order)"
    unfolding join_separated [OF m] items ..
  finally show ?thesis by (simp add: record_text_def)
qed

lemma json_dumps_text:
  assumes "\<forall>r\<in>set rs. ''  '' @ iterencode_dict r 1 = record_text r"
  shows "json_dumps rs = output_text rs"
proof (cases "rs = []")
  case True
  then show ?thesis by (simp add: json_dumps_def iterencode_list_def output_text_def)
next
  case False
  then have m: "map (\<lambda>d. iterencode_dict d (0 + 1)) rs \<noteq> []" by simp
  have nl: "newline_indent (0 + 1) = [CHR 0x0A] @ ''  ''" "newline_indent 0 = [CHR 0x0A]"
    by (simp_all add: newline_indent_def numeral_eq_Suc)
  have "json_dumps rs =
      ''['' @ newline_indent (0 + 1)
      @ join ('','' @ newline_indent (0 + 1)) (map (\<lambda>d. iterencode_dict d (0 + 1)) rs)
      @ newline_indent 0 @ '']''"
    using False by (simp only: json_dumps_def iterencode_list_def if_False)
  then have "json_dumps rs =
      ''['' @ [CHR 0x0A] @ (''  '' @ join (('','' @ [CHR 0x0A]) @ ''  '') (map (\<lambda>d. iterencode_dict d (0 + 1)) rs))
      @ [CHR 0x0A] @ '']''"
    unfolding nl by (simp only: append_assoc append_Cons append_Nil)
  also have "''  '' @ join (('','' @ [CHR 0x0A]) @ ''  '') (map (\<lambda>d. iterencode_dict d (0 + 1)) rs)
      = separated ('','' @ [CHR 0x0A]) (map (\<lambda>x. ''  '' @ x) (map (\<lambda>d. iterencode_dict d (0 + 1)) rs))"
    by (rule join_separated [OF m])
  also have "map (\<lambda>x. ''  '' @ x) (map (\<lambda>d. iterencode_dict d (0 + 1)) rs) = map record_text rs"
    using assms by simp
  finally show ?thesis using False by (simp add: output_text_def)
qed

lemma extract_test_elements_eq:
  "extract_test_elements parser html_content =
     (case parser html_content of
        Inl err \<Rightarrow> Inl err
      | Inr soup \<Rightarrow> Inr (json_dumps (map (record_of soup) (qualifying soup))))"
  by (simp add: extract_test_elements_def extract_records_eq split: sum.splits)

section \<open>Properties of the extractor and of the command line\<close>

text \<open>
  C1 (filter correctness). The records of a document stand one to one, position by
  position, for the elements that carry \<^verbatim>\<open>data-test-id\<close> with a value beginning with
  \<^verbatim>\<open>e2e-\<close>, taken in document order: each record is the one the code builds for its
  element. An element without the attribute, with an empty value or with a value that
  does not begin with \<^verbatim>\<open>e2e-\<close> is not among them and so has no record.
\<close>

theorem filter_correctness:
  "(\<exists>rs. extract_records soup = Inr rs \<and>
      list_all2 (\<lambda>e r. \<exists>v. attrs e ''data-test-id'' = Some v \<and> prefix ''e2e-'' v \<and>
                         build_element_info soup e v = Inr r)
        (filter carries_e2e_test_id (elements soup)) rs) \<and>
   (\<forall>t. attrs t ''data-test-id'' = None \<or> attrs t ''data-test-id'' = Some [] \<or>
        (\<exists>v. attrs t ''data-test-id'' = Some v \<and> \<not> prefix ''e2e-'' v)
        \<longrightarrow> \<not> carries_e2e_test_id t)"
proof -
  have "list_all2 (\<lambda>e r. \<exists>v. attrs e ''data-test-id'' = Some v \<and> prefix ''e2e-'' v \<and>
                        build_element_info soup e v = Inr r)
       (qualifying soup) (map (record_of soup) (qualifying soup))"
    unfolding list_all2_map2
    by (rule list_all2_same [THEN iffD2])
       (auto simp: qualifying_def carries_e2e_test_id_def record_of_def build_element_info_eq
             split: option.splits)
  then have "\<exists>rs. extract_records soup = Inr rs \<and>
      list_all2 (\<lambda>e r. \<exists>v. attrs e ''data-test-id'' = Some v \<and> prefix ''e2e-'' v \<and>
                         build_element_info soup e v = Inr r)
        (filter carries_e2e_test_id (elements soup)) rs"
    by (auto simp: extract_records_eq qualifying_def)
  moreover have "\<forall>t. attrs t ''data-test-id'' = None \<or> attrs t ''data-test-id'' = Some [] \<or>
        (\<exists>v. attrs t ''data-test-id'' = Some v \<and> \<not> prefix ''e2e-'' v)
        \<longrightarrow> \<not> carries_e2e_test_id t"
    by (auto simp: carries_e2e_test_id_def)
  ultimately show ?thesis by blast
qed

theorem filter_correctness_witness:
  "filter carries_e2e_test_id (elements mixed_doc) = [mixed_span] \<and>
   extract_records mixed_doc = Inr [[(''test_id'', ''e2e-x''), (''tag'', ''span'')]]"
  using filter_correctness [of mixed_doc]
  by (simp add: mixed_doc_def mixed_span_def run_defs)

text \<open>
  C5 (order preservation). The records stand for strictly increasing positions of the
  document's elements in document order: the positions are exactly those of the
  qualifying elements, each position has one record, and the record at an index is the
  one the code builds for the element at the position of that index. So the records
  follow the document order of their elements, and two qualifying elements with the
  same test identifier have a record each.
\<close>

theorem order_preservation:
  "\<exists>rs ps. extract_records soup = Inr rs \<and> length ps = length rs \<and> sorted_wrt (<) ps \<and>
     set ps = {p. p < length (elements soup) \<and> carries_e2e_test_id (elements soup ! p)} \<and>
     (\<forall>i<length rs. \<exists>v. attrs (elements soup ! (ps ! i)) ''data-test-id'' = Some v \<and>
        build_element_info soup (elements soup ! (ps ! i)) v = Inr (rs ! i))"
proof -
  let ?els = "elements soup"
  define ps where "ps = filter (\<lambda>p. carries_e2e_test_id (?els ! p)) [0..<length ?els]"
  have q: "qualifying soup = map ((!) ?els) ps"
  proof -
    have "filter carries_e2e_test_id (map ((!) ?els) [0..<length ?els]) = map ((!) ?els) ps"
      unfolding ps_def filter_map by (simp add: comp_def)
    then show ?thesis by (simp add: qualifying_def map_nth)
  qed
  have rs: "extract_records soup = Inr (map (record_of soup) (qualifying soup))"
    by (rule extract_records_eq)
  have len: "length ps = length (map (record_of soup) (qualifying soup))"
    by (simp add: q)
  have srt: "sorted_wrt (<) ps"
    unfolding ps_def by (rule sorted_wrt_filter) simp
  have st: "set ps = {p. p < length ?els \<and> carries_e2e_test_id (?els ! p)}"
    by (auto simp: ps_def)
  have rec: "\<forall>i<length (map (record_of soup) (qualifying soup)).
       \<exists>v. attrs (?els ! (ps ! i)) ''data-test-id'' = Some v \<and>
        build_element_info soup (?els ! (ps ! i)) v = Inr (map (record_of soup) (qualifying soup) ! i)"
  proof (intro allI impI)
    fix i
    assume "i < length (map (record_of soup) (qualifying soup))"
    then have i: "i < length ps" by (simp add: q)
    then have "ps ! i \<in> set ps" by simp
    then have "carries_e2e_test_id (?els ! (ps ! i))" by (simp add: st)
    then obtain v where v: "attrs (?els ! (ps ! i)) ''data-test-id'' = Some v"
      using carries_has_attr by blast
    have "map (record_of soup) (qualifying soup) ! i = record_of soup (?els ! (ps ! i))"
      using i by (simp add: q)
    then show "\<exists>v. attrs (?els ! (ps ! i)) ''data-test-id'' = Some v \<and>
        build_element_info soup (?els ! (ps ! i)) v = Inr (map (record_of soup) (qualifying soup) ! i)"
      using v by (simp add: build_element_info_eq record_of_def)
  qed
  from rs len srt st rec show ?thesis by blast
qed

theorem order_preservation_witness:
  "map (\<lambda>t. attrs t ''data-test-id'') (elements dup_doc) =
     [Some ''e2e-outer'', Some ''e2e-dup'', Some ''unit-foo'', Some ''e2e-dup''] \<and>
   extract_records dup_doc =
     Inr [[(''test_id'', ''e2e-outer''), (''tag'', ''div'')],
          [(''test_id'', ''e2e-dup''), (''tag'', ''span'')],
          [(''test_id'', ''e2e-dup''), (''tag'', ''span'')]]"
proof -
  have run: "map (\<lambda>t. attrs t ''data-test-id'') (elements dup_doc) =
     [Some ''e2e-outer'', Some ''e2e-dup'', Some ''unit-foo'', Some ''e2e-dup''] \<and>
   extract_records dup_doc =
     Inr [[(''test_id'', ''e2e-outer''), (''tag'', ''div'')],
          [(''test_id'', ''e2e-dup''), (''tag'', ''span'')],
          [(''test_id'', ''e2e-dup''), (''tag'', ''span'')]]"
    by (simp add: dup_doc_def dup_span_def run_defs)
  from order_preservation [of dup_doc] have "\<exists>rs. extract_records dup_doc = Inr rs"
    by (elim exE conjE) (rule exI)
  with run show ?thesis by (elim exE) (rule run)
qed

text \<open>
  C9. For every qualifying element whose \<^verbatim>\<open>id\<close> is there and empty, the record has no
  \<^verbatim>\<open>label\<close>, whatever labels the document holds; the step of lines 38 to 43 leaves the
  record as it was, in every document.
\<close>

theorem empty_id_no_label:
  "(\<exists>rs. extract_records soup = Inr rs \<and>
      list_all2 (\<lambda>e r. attrs e ''id'' = Some [] \<longrightarrow> map_of r ''label'' = None)
        (qualifying soup) rs) \<and>
   (\<forall>e d. attrs e ''id'' = Some [] \<longrightarrow> add_label soup e d = Inr d)"
proof
  show "\<exists>rs. extract_records soup = Inr rs \<and>
      list_all2 (\<lambda>e r. attrs e ''id'' = Some [] \<longrightarrow> map_of r ''label'' = None)
        (qualifying soup) rs"
  proof (rule records_rel)
    fix e
    assume "e \<in> set (qualifying soup)"
    then have "carries_e2e_test_id e" by (simp add: qualifying_def)
    then obtain v where v: "attrs e ''data-test-id'' = Some v"
      using carries_has_attr by blast
    show "attrs e ''id'' = Some [] \<longrightarrow> map_of (record_of soup e) ''label'' = None"
      by (simp add: map_of_record_of [OF v] field_sources_def label_value_def nonempty_def)
  qed
  show "\<forall>e d. attrs e ''id'' = Some [] \<longrightarrow> add_label soup e d = Inr d"
    by (simp add: add_label_def truthy_def get_def)
qed

theorem empty_id_no_label_witness:
  "qualifying empty_id_doc = [empty_id_input] \<and>
   attrs empty_id_input ''id'' = Some [] \<and>
   find_tag empty_id_doc ''label'' ''for'' [] = Some empty_for_label \<and>
   (\<exists>r. extract_records empty_id_doc = Inr [r] \<and> map_of r ''label'' = None)"
  using empty_id_no_label [of empty_id_doc]
  by (simp add: empty_id_doc_def empty_id_input_def empty_for_label_def run_defs)

text \<open>
  C2 (field omission), as the claim states it, fails for the field \<^verbatim>\<open>label\<close>. The source
  value of \<^verbatim>\<open>label\<close> in the specification is the stripped text of the first label whose
  \<^verbatim>\<open>for\<close> equals the element's \<^verbatim>\<open>id\<close>; line 38 looks the label up only when the \<^verbatim>\<open>id\<close> is a
  non-empty string. In \<^verbatim>\<open><input data-test-id="e2e-a" id=""><label for="">Name</label>\<close> the
  source value is the non-empty string \<^verbatim>\<open>Name\<close> and the record has no \<^verbatim>\<open>label\<close>.
\<close>

theorem field_omission_counterexample:
  "qualifying empty_id_doc = [empty_id_input] \<and>
   nonempty (spec_label_source empty_id_doc empty_id_input) = Some ''Name'' \<and>
   extract_records empty_id_doc = Inr [[(''test_id'', ''e2e-a''), (''tag'', ''input'')]] \<and>
   map_of [(''test_id'', ''e2e-a''), (''tag'', ''input'')] ''label'' = None"
  by (simp add: empty_id_doc_def empty_id_input_def empty_for_label_def spec_label_source_def
        run_defs)

text \<open>
  C2, amended: in the record of every qualifying element each of the fields \<^verbatim>\<open>type\<close>,
  \<^verbatim>\<open>aria_label\<close> and \<^verbatim>\<open>placeholder\<close> is there exactly when its attribute is a non-empty
  string, and then holds it; \<^verbatim>\<open>text\<close> is there exactly when the stripped text of the element
  is not empty; \<^verbatim>\<open>label\<close> is there exactly when the \<^verbatim>\<open>id\<close> of the element is a non-empty
  string and the first label for that id has a stripped text that is not empty. A field
  whose condition fails is left out: no field of a record holds an empty string, and a
  value of a record is a string, never null.
\<close>

theorem field_omission:
  "\<exists>rs. extract_records soup = Inr rs \<and>
     list_all2 (\<lambda>e r.
         map_of r ''type'' = nonempty (attrs e ''type'') \<and>
         map_of r ''aria_label'' = nonempty (attrs e ''aria-label'') \<and>
         map_of r ''placeholder'' = nonempty (attrs e ''placeholder'') \<and>
         map_of r ''text'' = nonempty (Some (get_text e)) \<and>
         (map_of r ''text'' \<noteq> None \<longleftrightarrow> stripped_text e \<noteq> []) \<and>
         map_of r ''label'' = nonempty (label_value soup e) \<and>
         (map_of r ''label'' \<noteq> None \<longleftrightarrow>
            (\<exists>x l. attrs e ''id'' = Some x \<and> x \<noteq> [] \<and> first_label_for soup x = Some l \<and>
                   stripped_text l \<noteq> [])) \<and>
         (\<forall>kv\<in>set r. snd kv \<noteq> []))
       (qualifying soup) rs"
proof (rule records_rel)
  fix e
  assume "e \<in> set (qualifying soup)"
  then have c: "carries_e2e_test_id e" by (simp add: qualifying_def)
  then obtain v where v: "attrs e ''data-test-id'' = Some v"
    using carries_has_attr by blast
  note m = map_of_record_of [OF v, of soup]
  have ty: "map_of (record_of soup e) ''type'' = nonempty (attrs e ''type'')"
    by (cases "attrs e ''type''") (simp_all add: m field_sources_def nonempty_def)
  have ar: "map_of (record_of soup e) ''aria_label'' = nonempty (attrs e ''aria-label'')"
    by (cases "attrs e ''aria-label''") (simp_all add: m field_sources_def nonempty_def)
  have pl: "map_of (record_of soup e) ''placeholder'' = nonempty (attrs e ''placeholder'')"
    by (cases "attrs e ''placeholder''") (simp_all add: m field_sources_def nonempty_def)
  have tx: "map_of (record_of soup e) ''text'' = nonempty (Some (get_text e))"
    by (simp add: m field_sources_def)
  have txp: "map_of (record_of soup e) ''text'' \<noteq> None \<longleftrightarrow> stripped_text e \<noteq> []"
    unfolding tx by (simp add: nonempty_def get_text_eq_Nil stripped_text_def)
  have lb: "map_of (record_of soup e) ''label'' = nonempty (label_value soup e)"
    by (cases "label_value soup e") (simp_all add: m field_sources_def nonempty_def)
  have lbp: "map_of (record_of soup e) ''label'' \<noteq> None \<longleftrightarrow>
            (\<exists>x l. attrs e ''id'' = Some x \<and> x \<noteq> [] \<and> first_label_for soup x = Some l \<and>
                   stripped_text l \<noteq> [])"
    unfolding lb
    by (auto simp: nonempty_def label_value_def get_text_eq_Nil stripped_text_def
             split: option.splits if_splits)
  have ne: "\<forall>kv\<in>set (record_of soup e). snd kv \<noteq> []"
    using values_record_of [OF _ c] by auto
  from ty ar pl tx txp lb lbp ne
  show "map_of (record_of soup e) ''type'' = nonempty (attrs e ''type'') \<and>
         map_of (record_of soup e) ''aria_label'' = nonempty (attrs e ''aria-label'') \<and>
         map_of (record_of soup e) ''placeholder'' = nonempty (attrs e ''placeholder'') \<and>
         map_of (record_of soup e) ''text'' = nonempty (Some (get_text e)) \<and>
         (map_of (record_of soup e) ''text'' \<noteq> None \<longleftrightarrow> stripped_text e \<noteq> []) \<and>
         map_of (record_of soup e) ''label'' = nonempty (label_value soup e) \<and>
         (map_of (record_of soup e) ''label'' \<noteq> None \<longleftrightarrow>
            (\<exists>x l. attrs e ''id'' = Some x \<and> x \<noteq> [] \<and> first_label_for soup x = Some l \<and>
                   stripped_text l \<noteq> [])) \<and>
         (\<forall>kv\<in>set (record_of soup e). snd kv \<noteq> [])"
    by blast
qed

theorem field_omission_witness:
  "qualifying sparse_doc = [sparse_button] \<and>
   attrs sparse_button ''type'' = Some [] \<and>
   attrs sparse_button ''aria-label'' = Some [] \<and>
   stripped_text sparse_button = [] \<and>
   attrs sparse_button ''id'' = None \<and>
   extract_records sparse_doc =
     Inr [[(''test_id'', ''e2e-b''), (''tag'', ''button''), (''placeholder'', ''p'')]]"
proof -
  have run: "qualifying sparse_doc = [sparse_button] \<and>
   attrs sparse_button ''type'' = Some [] \<and>
   attrs sparse_button ''aria-label'' = Some [] \<and>
   stripped_text sparse_button = [] \<and>
   attrs sparse_button ''id'' = None \<and>
   extract_records sparse_doc =
     Inr [[(''test_id'', ''e2e-b''), (''tag'', ''button''), (''placeholder'', ''p'')]]"
    by (simp add: sparse_doc_def sparse_button_def run_defs)
  from field_omission [of sparse_doc] have "\<exists>rs. extract_records sparse_doc = Inr rs"
    by (elim exE conjE) (rule exI)
  with run show ?thesis by (elim exE) (rule run)
qed

text \<open>
  C3 (label resolution), as the claim states it, fails in two ways. For an element whose
  \<^verbatim>\<open>id\<close> is there and empty no label is looked up (line 38 tests the truth of the \<^verbatim>\<open>id\<close>),
  even when the document has a label whose \<^verbatim>\<open>for\<close> is the empty string: in
  \<^verbatim>\<open><input data-test-id="e2e-a" id=""><label for="">Name</label>\<close> the stripped text of that
  label is \<^verbatim>\<open>Name\<close> and the record has no \<^verbatim>\<open>label\<close>. And the value emitted is
  \<^verbatim>\<open>get_text(strip=True)\<close> of the label, which strips every string inside the label and
  joins them: for \<^verbatim>\<open><label for="n"> First <b> Name </b></label>\<close> the stripped text is
  \<^verbatim>\<open>First  Name\<close> and the record holds \<^verbatim>\<open>FirstName\<close>.
\<close>

theorem label_resolution_counterexample:
  "qualifying empty_id_doc = [empty_id_input] \<and>
   attrs empty_id_input ''id'' = Some '''' \<and>
   first_label_for empty_id_doc '''' = Some empty_for_label \<and>
   stripped_text empty_for_label = ''Name'' \<and>
   extract_records empty_id_doc = Inr [[(''test_id'', ''e2e-a''), (''tag'', ''input'')]] \<and>
   qualifying nested_doc = [nested_input] \<and>
   attrs nested_input ''id'' = Some ''n'' \<and>
   first_label_for nested_doc ''n'' = Some nested_label \<and>
   stripped_text nested_label = ''First  Name'' \<and>
   extract_records nested_doc =
     Inr [[(''test_id'', ''e2e-n''), (''tag'', ''input''), (''label'', ''FirstName'')]]"
  by (simp add: empty_id_doc_def empty_id_input_def empty_for_label_def
        nested_doc_def nested_input_def nested_label_def run_defs)

text \<open>
  C3, amended: for every qualifying element with a non-empty \<^verbatim>\<open>id\<close>, the field \<^verbatim>\<open>label\<close>
  holds the text that \<^verbatim>\<open>get_text(strip=True)\<close> gives for the first \<^verbatim>\<open>label\<close> element of the
  document, in document order, whose \<^verbatim>\<open>for\<close> attribute equals that id: every string inside
  the label with the whitespace at its ends removed, the empty ones dropped and the rest
  joined without a separator. The field is left out when there is no such label or when
  that text is empty, which is when the stripped text of that first label is empty.
\<close>

theorem label_resolution:
  "(\<exists>rs. extract_records soup = Inr rs \<and>
      list_all2 (\<lambda>e r. \<forall>x. attrs e ''id'' = Some x \<and> x \<noteq> [] \<longrightarrow>
          map_of r ''label'' =
            (case first_label_for soup x of
               None \<Rightarrow> None
             | Some l \<Rightarrow> if get_text l = [] then None else Some (get_text l)))
        (qualifying soup) rs) \<and>
   (\<forall>l. get_text l =
          concat (filter (\<lambda>s. s \<noteq> [])
            (map strip (strings_of (interesting_string_types (name l)) (descendants l)))) \<and>
        (get_text l = [] \<longleftrightarrow> stripped_text l = []))"
proof
  show "\<exists>rs. extract_records soup = Inr rs \<and>
      list_all2 (\<lambda>e r. \<forall>x. attrs e ''id'' = Some x \<and> x \<noteq> [] \<longrightarrow>
          map_of r ''label'' =
            (case first_label_for soup x of
               None \<Rightarrow> None
             | Some l \<Rightarrow> if get_text l = [] then None else Some (get_text l)))
        (qualifying soup) rs"
  proof (rule records_rel)
    fix e
    assume "e \<in> set (qualifying soup)"
    then have "carries_e2e_test_id e" by (simp add: qualifying_def)
    then obtain v where v: "attrs e ''data-test-id'' = Some v"
      using carries_has_attr by blast
    have m: "map_of (record_of soup e) ''label'' = nonempty (label_value soup e)"
      by (cases "label_value soup e")
         (simp_all add: map_of_record_of [OF v] field_sources_def nonempty_def)
    show "\<forall>x. attrs e ''id'' = Some x \<and> x \<noteq> [] \<longrightarrow>
           map_of (record_of soup e) ''label'' =
             (case first_label_for soup x of
                None \<Rightarrow> None
              | Some l \<Rightarrow> if get_text l = [] then None else Some (get_text l))"
      unfolding m by (auto simp: label_value_def nonempty_def split: option.splits)
  qed
  show "\<forall>l. get_text l =
          concat (filter (\<lambda>s. s \<noteq> [])
            (map strip (strings_of (interesting_string_types (name l)) (descendants l)))) \<and>
        (get_text l = [] \<longleftrightarrow> stripped_text l = [])"
  proof (intro allI conjI)
    fix l
    show "get_text l =
          concat (filter (\<lambda>s. s \<noteq> [])
            (map strip (strings_of (interesting_string_types (name l)) (descendants l))))"
      by (simp only: get_text_def all_strings_stripped_def)
    show "get_text l = [] \<longleftrightarrow> stripped_text l = []"
      by (simp only: get_text_eq_Nil stripped_text_def)
  qed
qed

theorem label_resolution_witness:
  "qualifying email_doc = [email_input] \<and>
   attrs email_input ''id'' = Some ''email'' \<and>
   extract_records email_doc =
     Inr [[(''test_id'', ''e2e-email''), (''tag'', ''input''), (''placeholder'', ''you@x.com''),
           (''label'', ''Email'')]]"
proof -
  have run: "qualifying email_doc = [email_input] \<and>
   attrs email_input ''id'' = Some ''email'' \<and>
   extract_records email_doc =
     Inr [[(''test_id'', ''e2e-email''), (''tag'', ''input''), (''placeholder'', ''you@x.com''),
           (''label'', ''Email'')]]"
    by (simp add: email_doc_def email_input_def run_defs)
  from label_resolution [of email_doc] have "\<exists>rs. extract_records email_doc = Inr rs"
    by (elim exE conjE) (rule exI)
  with run show ?thesis by (elim exE) (rule run)
qed

text \<open>
  C4 (shape of a record). Whenever the extractor returns, its output is the serialized
  text of the records of the loop; every record has the fields \<^verbatim>\<open>test_id\<close> and \<^verbatim>\<open>tag\<close>, and
  its keys, in their order of insertion, are the list \<^verbatim>\<open>test_id, tag, type, text,
  aria_label, placeholder, label\<close> restricted to the keys the record has. The text of a
  record has one line for each of its fields, and these lines follow that list: the
  output is \<open>output_text\<close> of the records.
\<close>

theorem record_shape:
  assumes "extract_test_elements parser html_content = Inr out"
  shows "\<exists>soup rs. parser html_content = Inr soup \<and> extract_records soup = Inr rs \<and>
     out = output_text rs \<and>
     (\<forall>r\<in>set rs.
        map_of r ''test_id'' \<noteq> None \<and> map_of r ''tag'' \<noteq> None \<and>
        map fst r = filter (\<lambda>k. map_of r k \<noteq> None) field_order)"
proof -
  from assms obtain soup where soup: "parser html_content = Inr soup"
    by (cases "parser html_content") (simp_all add: extract_test_elements_def)
  let ?rs = "map (record_of soup) (qualifying soup)"
  have rs: "extract_records soup = Inr ?rs" by (rule extract_records_eq)
  have each: "map_of r ''test_id'' \<noteq> None \<and> map_of r ''tag'' \<noteq> None \<and>
        map fst r = filter (\<lambda>k. map_of r k \<noteq> None) field_order \<and>
        ''  '' @ iterencode_dict r 1 = record_text r" if "r \<in> set ?rs" for r
  proof -
    from that obtain e where e: "e \<in> set (qualifying soup)" and r: "r = record_of soup e"
      by auto
    from e have "carries_e2e_test_id e" by (simp add: qualifying_def)
    then obtain v where v: "attrs e ''data-test-id'' = Some v"
      using carries_has_attr by blast
    have "map_of r ''test_id'' \<noteq> None"
      by (simp add: r map_of_record_of [OF v])
    moreover have "map_of r ''tag'' \<noteq> None"
      by (simp add: r map_of_record_of [OF v] field_sources_def nonempty_def name_nonempty)
    moreover have "map fst r = filter (\<lambda>k. map_of r k \<noteq> None) field_order"
      unfolding r by (rule record_of_keys(1) [OF v])
    moreover have "''  '' @ iterencode_dict r 1 = record_text r"
      unfolding r by (rule record_of_text [OF v])
    ultimately show ?thesis by blast
  qed
  then have "json_dumps ?rs = output_text ?rs"
    by (intro json_dumps_text) blast
  with assms soup have "out = output_text ?rs"
    by (simp add: extract_test_elements_eq)
  with soup rs each show ?thesis by blast
qed

theorem record_shape_witness:
  "extract_test_elements example_parser ''<b data-test-id=e2e-x>hi</b>'' =
     Inr (''['' @ [CHR 0x0A] @
          ''  {'' @ [CHR 0x0A] @
          ''    '' @ [CHR 0x22] @ ''test_id'' @ [CHR 0x22] @ '': '' @ [CHR 0x22] @ ''e2e-x'' @ [CHR 0x22] @ '','' @ [CHR 0x0A] @
          ''    '' @ [CHR 0x22] @ ''tag'' @ [CHR 0x22] @ '': '' @ [CHR 0x22] @ ''b'' @ [CHR 0x22] @ '','' @ [CHR 0x0A] @
          ''    '' @ [CHR 0x22] @ ''text'' @ [CHR 0x22] @ '': '' @ [CHR 0x22] @ ''hi'' @ [CHR 0x22] @ [CHR 0x0A] @
          ''  }'' @ [CHR 0x0A] @
          '']'') \<and>
   extract_records bold_doc = Inr [[(''test_id'', ''e2e-x''), (''tag'', ''b''), (''text'', ''hi'')]] \<and>
   filter (\<lambda>k. map_of [(''test_id'', ''e2e-x''), (''tag'', ''b''), (''text'', ''hi'')] k \<noteq> None) field_order =
     [''test_id'', ''tag'', ''text'']"
proof -
  have rs: "extract_records bold_doc = Inr [[(''test_id'', ''e2e-x''), (''tag'', ''b''), (''text'', ''hi'')]]"
    by (simp add: bold_doc_def run_defs)
  have js: "json_dumps [[(''test_id'', ''e2e-x''), (''tag'', ''b''), (''text'', ''hi'')]] =
     ''['' @ [CHR 0x0A] @
          ''  {'' @ [CHR 0x0A] @
          ''    '' @ [CHR 0x22] @ ''test_id'' @ [CHR 0x22] @ '': '' @ [CHR 0x22] @ ''e2e-x'' @ [CHR 0x22] @ '','' @ [CHR 0x0A] @
          ''    '' @ [CHR 0x22] @ ''tag'' @ [CHR 0x22] @ '': '' @ [CHR 0x22] @ ''b'' @ [CHR 0x22] @ '','' @ [CHR 0x0A] @
          ''    '' @ [CHR 0x22] @ ''text'' @ [CHR 0x22] @ '': '' @ [CHR 0x22] @ ''hi'' @ [CHR 0x22] @ [CHR 0x0A] @
          ''  }'' @ [CHR 0x0A] @
          '']''"
    by code_simp
  have out: "extract_test_elements example_parser ''<b data-test-id=e2e-x>hi</b>'' =
     Inr (json_dumps [[(''test_id'', ''e2e-x''), (''tag'', ''b''), (''text'', ''hi'')]])"
    by (simp add: extract_test_elements_def example_parser_def rs)
  have fo: "filter (\<lambda>k. map_of [(''test_id'', ''e2e-x''), (''tag'', ''b''), (''text'', ''hi'')] k \<noteq> None) field_order =
     [''test_id'', ''tag'', ''text'']"
    by (simp add: field_order_def)
  from record_shape [OF out] obtain soup rs'
    where "example_parser ''<b data-test-id=e2e-x>hi</b>'' = Inr soup"
      and "extract_records soup = Inr rs'"
    by (elim exE conjE)
  then have "extract_records bold_doc = Inr rs'"
    by (simp add: example_parser_def)
  with out rs js fo show ?thesis by (simp only:)
qed

text \<open>The layout of the same record, written out.\<close>

lemma output_text_example:
  "output_text [[(''test_id'', ''e2e-x''), (''tag'', ''b''), (''text'', ''hi'')]] =
     ''['' @ [CHR 0x0A] @
          ''  {'' @ [CHR 0x0A] @
          ''    '' @ [CHR 0x22] @ ''test_id'' @ [CHR 0x22] @ '': '' @ [CHR 0x22] @ ''e2e-x'' @ [CHR 0x22] @ '','' @ [CHR 0x0A] @
          ''    '' @ [CHR 0x22] @ ''tag'' @ [CHR 0x22] @ '': '' @ [CHR 0x22] @ ''b'' @ [CHR 0x22] @ '','' @ [CHR 0x0A] @
          ''    '' @ [CHR 0x22] @ ''text'' @ [CHR 0x22] @ '': '' @ [CHR 0x22] @ ''hi'' @ [CHR 0x22] @ [CHR 0x0A] @
          ''  }'' @ [CHR 0x0A] @
          '']''"
  by code_simp

text \<open>
  C7 (no fault), as the claim states it, fails at a text the parser rejects: line 8 has no
  handler, so the exception of the library leaves the extractor. For \<^verbatim>\<open><![x y]>\<close> the
  extractor raises \<^verbatim>\<open>ParserRejectedMarkup\<close> and returns nothing.
\<close>

theorem no_fault_counterexample:
  "extract_test_elements example_parser ''<![x y]>'' = Inl ParserRejectedMarkup"
  by (simp add: extract_test_elements_def example_parser_def)

text \<open>
  C7, amended: for every input for which the parser returns a tree, truncated or
  malformed as the input may be, the extractor raises nothing: the loop ends with a list
  of records (possibly empty) and the result is the serialization of that list. When the
  parser raises, its exception leaves the extractor unhandled.
\<close>

theorem no_fault:
  "(\<forall>soup. parser html_content = Inr soup \<longrightarrow>
      (\<exists>rs. extract_records soup = Inr rs \<and>
            extract_test_elements parser html_content = Inr (json_dumps rs))) \<and>
   (\<forall>err. parser html_content = Inl err \<longrightarrow>
      extract_test_elements parser html_content = Inl err)"
proof (intro conjI allI impI)
  fix soup
  assume soup: "parser html_content = Inr soup"
  have "\<exists>d. build_element_info soup element v = Inr d" for element v
    by (simp add: build_element_info_eq)
  have "extract_records soup = Inr (map (record_of soup) (qualifying soup))"
    by (rule extract_records_eq)
  moreover from soup
  have "extract_test_elements parser html_content =
          Inr (json_dumps (map (record_of soup) (qualifying soup)))"
    by (simp add: extract_test_elements_eq)
  ultimately show "\<exists>rs. extract_records soup = Inr rs \<and>
            extract_test_elements parser html_content = Inr (json_dumps rs)"
    by blast
next
  fix err
  assume "parser html_content = Inl err"
  then show "extract_test_elements parser html_content = Inl err"
    by (simp add: extract_test_elements_def)
qed

theorem no_fault_witness:
  "example_parser ''<b data-test-id=e2e-x>hi'' = Inr bold_doc \<and>
   extract_test_elements example_parser ''<b data-test-id=e2e-x>hi'' =
     Inr (json_dumps [[(''test_id'', ''e2e-x''), (''tag'', ''b''), (''text'', ''hi'')]]) \<and>
   example_parser ''<![a]]>'' = Inl ParserRejectedMarkup \<and>
   extract_test_elements example_parser ''<![a]]>'' = Inl ParserRejectedMarkup"
proof -
  have p: "example_parser ''<b data-test-id=e2e-x>hi'' = Inr bold_doc"
    by (simp add: example_parser_def)
  have q: "example_parser ''<![a]]>'' = Inl ParserRejectedMarkup"
    by (simp add: example_parser_def)
  have rs: "extract_records bold_doc = Inr [[(''test_id'', ''e2e-x''), (''tag'', ''b''), (''text'', ''hi'')]]"
    by (simp add: bold_doc_def run_defs)
  from no_fault [of example_parser "''<b data-test-id=e2e-x>hi''"] p
  obtain rs' where "extract_records bold_doc = Inr rs'"
    and "extract_test_elements example_parser ''<b data-test-id=e2e-x>hi'' = Inr (json_dumps rs')"
    by blast
  with rs have "extract_test_elements example_parser ''<b data-test-id=e2e-x>hi'' =
     Inr (json_dumps [[(''test_id'', ''e2e-x''), (''tag'', ''b''), (''text'', ''hi'')]])"
    by simp
  moreover from no_fault [of example_parser "''<![a]]>''"] q
  have "extract_test_elements example_parser ''<![a]]>'' = Inl ParserRejectedMarkup"
    by blast
  ultimately show ?thesis using p q by blast
qed

text \<open>
  C10 (empty collection), as the claim states it, fails at a text the parser rejects: no
  element qualifies, since there is no tree, and the extractor raises where the claim
  has it return \<^verbatim>\<open>[]\<close>.
\<close>

theorem empty_collection_counterexample:
  "example_parser ''<![x y]>'' = Inl ParserRejectedMarkup \<and>
   extract_test_elements example_parser ''<![x y]>'' \<noteq> Inr ''[]''"
  by (simp add: extract_test_elements_def example_parser_def)

text \<open>
  C10, amended: for every input for which the parser returns a tree in which no element
  qualifies, as for the empty text, whose tree has no elements, the extractor returns
  the two characters \<^verbatim>\<open>[]\<close>.
\<close>

theorem empty_collection:
  assumes "parser html_content = Inr soup"
    and "\<forall>t\<in>set (elements soup). \<not> carries_e2e_test_id t"
  shows "extract_test_elements parser html_content = Inr ''[]''"
proof -
  have "qualifying soup = []"
    using assms(2) by (simp add: qualifying_def filter_empty_conv)
  then show ?thesis
    using assms(1)
    by (simp add: extract_test_elements_eq json_dumps_def iterencode_list_def)
qed

theorem empty_collection_witness:
  "example_parser '''' = Inr (document []) \<and>
   elements (document []) = [] \<and>
   extract_test_elements example_parser '''' = Inr ''[]'' \<and>
   example_parser ''<span data-test-id=unit-foo>hi</span>'' = Inr unit_doc \<and>
   map (\<lambda>t. attrs t ''data-test-id'') (elements unit_doc) = [Some ''unit-foo''] \<and>
   extract_test_elements example_parser ''<span data-test-id=unit-foo>hi</span>'' = Inr ''[]''"
proof -
  have p1: "example_parser '''' = Inr (document [])"
    by (simp add: example_parser_def)
  have p2: "example_parser ''<span data-test-id=unit-foo>hi</span>'' = Inr unit_doc"
    by (simp add: example_parser_def)
  have h1: "\<forall>t\<in>set (elements (document [])). \<not> carries_e2e_test_id t"
    by (simp add: run_defs)
  have h2: "\<forall>t\<in>set (elements unit_doc). \<not> carries_e2e_test_id t"
    by (simp add: unit_doc_def run_defs)
  have e1: "elements (document []) = []"
    by (simp add: run_defs)
  have e2: "map (\<lambda>t. attrs t ''data-test-id'') (elements unit_doc) = [Some ''unit-foo'']"
    by (simp add: unit_doc_def run_defs)
  from p1 p2 e1 e2
    empty_collection [of example_parser "''''" "document []", OF p1 h1]
    empty_collection [of example_parser "''<span data-test-id=unit-foo>hi</span>''" unit_doc, OF p2 h2]
  show ?thesis by (simp only: simp_thms)
qed

text \<open>
  C6 (command line), as the claim states it, fails in its third case: for a file that
  can be read as UTF-8 text and whose markup the parser rejects, the exception of line 8
  leaves the program, which prints nothing on standard output and does not end with
  status 0. The same holds for a path that exists and cannot be read as text, such as a
  directory, where \<^verbatim>\<open>open\<close> raises.
\<close>

theorem cli_counterexample:
  "example_fs ''section.html'' = Some (RegularFile True (Some ''<![a]]>'')) \<and>
   main example_parser example_fs [''extract_test_elements.py'', ''section.html''] =
     Inl ParserRejectedMarkup \<and>
   path_exists example_fs ''/tmp'' \<and>
   main example_parser example_fs [''extract_test_elements.py'', ''/tmp''] = Inl IsADirectoryError"
  by (simp add: main_def path_exists_def read_file_def example_fs_def
        extract_test_elements_def example_parser_def)

text \<open>
  C6, amended: without an argument the run prints the usage message on standard output
  and exits with status 1; with a path that does not exist it prints an error message
  that names the path and exits with status 1; with a path to a file that it can read as
  UTF-8 text and for whose text the parser returns a tree, it prints the extractor's
  output for that text and exits with status 0. When the file cannot be read as text or
  the parser rejects the text, the exception leaves the program.
\<close>

theorem cli_behaviour:
  "(length argv < 2 \<longrightarrow> main parser fs argv = Inr (print_line usage_message, 1)) \<and>
   (2 \<le> length argv \<and> fs (argv ! 1) = None \<longrightarrow>
      main parser fs argv = Inr (print_line (error_message (argv ! 1)), 1) \<and>
      (\<exists>before after. error_message (argv ! 1) = before @ argv ! 1 @ after)) \<and>
   (2 \<le> length argv \<and> fs (argv ! 1) = Some (RegularFile True (Some html_content)) \<and>
    parser html_content = Inr soup \<longrightarrow>
      (\<exists>out. extract_test_elements parser html_content = Inr out \<and>
             main parser fs argv = Inr (print_line out, 0))) \<and>
   (2 \<le> length argv \<and> fs (argv ! 1) = Some (RegularFile True (Some html_content)) \<and>
    parser html_content = Inl err \<longrightarrow> main parser fs argv = Inl err) \<and>
   (2 \<le> length argv \<and> fs (argv ! 1) \<noteq> None \<and> read_file fs (argv ! 1) = Inl err \<longrightarrow>
      main parser fs argv = Inl err)"
proof (intro conjI impI)
  assume "length argv < 2"
  then show "main parser fs argv = Inr (print_line usage_message, 1)"
    by (simp add: main_def)
next
  assume "2 \<le> length argv \<and> fs (argv ! 1) = None"
  then show "main parser fs argv = Inr (print_line (error_message (argv ! 1)), 1)"
    by (simp add: main_def path_exists_def)
next
  have "error_message (argv ! 1) =
      (''Error: File '' @ [CHR 0x27]) @ argv ! 1 @ ([CHR 0x27] @ '' does not exist.'')"
    by (simp add: error_message_def)
  then show "\<exists>before after. error_message (argv ! 1) = before @ argv ! 1 @ after"
    by blast
next
  assume a: "2 \<le> length argv \<and> fs (argv ! 1) = Some (RegularFile True (Some html_content)) \<and>
    parser html_content = Inr soup"
  then have "extract_test_elements parser html_content =
      Inr (json_dumps (map (record_of soup) (qualifying soup)))"
    by (simp add: extract_test_elements_eq)
  then show "\<exists>out. extract_test_elements parser html_content = Inr out \<and>
             main parser fs argv = Inr (print_line out, 0)"
    using a by (simp add: main_def path_exists_def read_file_def)
next
  assume "2 \<le> length argv \<and> fs (argv ! 1) = Some (RegularFile True (Some html_content)) \<and>
    parser html_content = Inl err"
  then show "main parser fs argv = Inl err"
    by (simp add: main_def path_exists_def read_file_def extract_test_elements_def)
next
  assume "2 \<le> length argv \<and> fs (argv ! 1) \<noteq> None \<and> read_file fs (argv ! 1) = Inl err"
  then show "main parser fs argv = Inl err"
    by (auto simp: main_def path_exists_def Let_def)
qed

theorem cli_behaviour_witness:
  "main example_parser example_fs [''extract_test_elements.py''] =
     Inr (print_line ''Usage: python extract_test_elements.py <path_to_html_file>'', 1) \<and>
   main example_parser example_fs [''extract_test_elements.py'', ''missing.html''] =
     Inr (print_line (''Error: File '' @ [CHR 0x27] @ ''missing.html'' @ [CHR 0x27] @ '' does not exist.''), 1) \<and>
   main example_parser example_fs [''extract_test_elements.py'', ''page.html''] =
     Inr (print_line (json_dumps [[(''test_id'', ''e2e-x''), (''tag'', ''b''), (''text'', ''hi'')]]), 0) \<and>
   main example_parser example_fs [''extract_test_elements.py'', ''logo.png''] = Inl UnicodeDecodeError"
proof -
  have rs: "extract_records bold_doc = Inr [[(''test_id'', ''e2e-x''), (''tag'', ''b''), (''text'', ''hi'')]]"
    by (simp add: bold_doc_def run_defs)
  have p: "example_parser ''<b data-test-id=e2e-x>hi</b>'' = Inr bold_doc"
    by (simp add: example_parser_def)
  have out: "extract_test_elements example_parser ''<b data-test-id=e2e-x>hi</b>'' =
     Inr (json_dumps [[(''test_id'', ''e2e-x''), (''tag'', ''b''), (''text'', ''hi'')]])"
    by (simp add: extract_test_elements_def p rs)
  have f1: "example_fs ''missing.html'' = None"
    by (simp add: example_fs_def)
  have f2: "example_fs ''page.html'' = Some (RegularFile True (Some ''<b data-test-id=e2e-x>hi</b>''))"
    by (simp add: example_fs_def)
  have f3: "example_fs ''logo.png'' \<noteq> None" "read_file example_fs ''logo.png'' = Inl UnicodeDecodeError"
    by (simp_all add: example_fs_def read_file_def)
  have "main example_parser example_fs [''extract_test_elements.py''] =
     Inr (print_line ''Usage: python extract_test_elements.py <path_to_html_file>'', 1)"
    using cli_behaviour [of "[''extract_test_elements.py'']" example_parser example_fs]
    by (simp add: usage_message_def)
  moreover have "main example_parser example_fs [''extract_test_elements.py'', ''missing.html''] =
     Inr (print_line (''Error: File '' @ [CHR 0x27] @ ''missing.html'' @ [CHR 0x27] @ '' does not exist.''), 1)"
    using cli_behaviour [of "[''extract_test_elements.py'', ''missing.html'']" example_parser example_fs] f1
    by (simp add: error_message_def)
  moreover have "main example_parser example_fs [''extract_test_elements.py'', ''page.html''] =
     Inr (print_line (json_dumps [[(''test_id'', ''e2e-x''), (''tag'', ''b''), (''text'', ''hi'')]]), 0)"
    using cli_behaviour [of "[''extract_test_elements.py'', ''page.html'']" example_parser example_fs
            "''<b data-test-id=e2e-x>hi</b>''" bold_doc] f2 p out
    by simp
  moreover have "main example_parser example_fs [''extract_test_elements.py'', ''logo.png''] = Inl UnicodeDecodeError"
    using cli_behaviour [of "[''extract_test_elements.py'', ''logo.png'']" example_parser example_fs
            _ _ UnicodeDecodeError] f3
    by simp
  ultimately show ?thesis by blast
qed

end
